theory Spec2Isabelle
  imports Main "HOL-Library.Word" "HOL-Library.Char_ord" "HOL-Library.List_Lexorder"
    "HOL-Library.Multiset"
begin

section \<open>SHA-256 as computed by a streaming hash object\<close>

text \<open>
  \<^verbatim>\<open>sha256_file\<close> feeds a \<^verbatim>\<open>hashlib.sha256()\<close> object chunk by chunk. The object is
  modelled as the usual incremental SHA-256 (FIPS 180-4): a chaining value of eight
  32-bit words, the bytes not yet filling a 64-byte block, and the number of bytes
  absorbed so far. \<^verbatim>\<open>update\<close> compresses every complete block, \<^verbatim>\<open>hexdigest\<close> pads and
  prints the result in lowercase hexadecimal.
\<close>

unbundle bit_operations_syntax

type_synonym byte = "8 word"
type_synonym word32 = "32 word"

definition K256 :: "word32 list" where
  "K256 =
   [0x428A2F98, 0x71374491, 0xB5C0FBCF, 0xE9B5DBA5, 0x3956C25B, 0x59F111F1, 0x923F82A4, 0xAB1C5ED5,
    0xD807AA98, 0x12835B01, 0x243185BE, 0x550C7DC3, 0x72BE5D74, 0x80DEB1FE, 0x9BDC06A7, 0xC19BF174,
    0xE49B69C1, 0xEFBE4786, 0x0FC19DC6, 0x240CA1CC, 0x2DE92C6F, 0x4A7484AA, 0x5CB0A9DC, 0x76F988DA,
    0x983E5152, 0xA831C66D, 0xB00327C8, 0xBF597FC7, 0xC6E00BF3, 0xD5A79147, 0x06CA6351, 0x14292967,
    0x27B70A85, 0x2E1B2138, 0x4D2C6DFC, 0x53380D13, 0x650A7354, 0x766A0ABB, 0x81C2C92E, 0x92722C85,
    0xA2BFE8A1, 0xA81A664B, 0xC24B8B70, 0xC76C51A3, 0xD192E819, 0xD6990624, 0xF40E3585, 0x106AA070,
    0x19A4C116, 0x1E376C08, 0x2748774C, 0x34B0BCB5, 0x391C0CB3, 0x4ED8AA4A, 0x5B9CCA4F, 0x682E6FF3,
    0x748F82EE, 0x78A5636F, 0x84C87814, 0x8CC70208, 0x90BEFFFA, 0xA4506CEB, 0xBEF9A3F7, 0xC67178F2]"

definition H256 :: "word32 list" where
  "H256 = [0x6A09E667, 0xBB67AE85, 0x3C6EF372, 0xA54FF53A,
           0x510E527F, 0x9B05688C, 0x1F83D9AB, 0x5BE0CD19]"

definition Ch :: "word32 \<Rightarrow> word32 \<Rightarrow> word32 \<Rightarrow> word32" where
  "Ch x y z = (x AND y) XOR (NOT x AND z)"

definition Maj :: "word32 \<Rightarrow> word32 \<Rightarrow> word32 \<Rightarrow> word32" where
  "Maj x y z = (x AND y) XOR (x AND z) XOR (y AND z)"

definition bsig0 :: "word32 \<Rightarrow> word32" where
  "bsig0 x = word_rotr 2 x XOR word_rotr 13 x XOR word_rotr 22 x"

definition bsig1 :: "word32 \<Rightarrow> word32" where
  "bsig1 x = word_rotr 6 x XOR word_rotr 11 x XOR word_rotr 25 x"

definition ssig0 :: "word32 \<Rightarrow> word32" where
  "ssig0 x = word_rotr 7 x XOR word_rotr 18 x XOR drop_bit 3 x"

definition ssig1 :: "word32 \<Rightarrow> word32" where
  "ssig1 x = word_rotr 17 x XOR word_rotr 19 x XOR drop_bit 10 x"

definition be32 :: "byte list \<Rightarrow> word32" where
  "be32 bs = foldl (\<lambda>w b. push_bit 8 w OR ucast b) 0 bs"

fun block_words :: "byte list \<Rightarrow> word32 list" where
  "block_words (a # b # c # d # bs) = be32 [a, b, c, d] # block_words bs"
| "block_words _ = []"

fun schedule :: "nat \<Rightarrow> word32 list \<Rightarrow> word32 list" where
  "schedule 0 ws = ws"
| "schedule (Suc n) ws =
     (let t = length ws
      in schedule n (ws @ [ssig1 (ws ! (t - 2)) + ws ! (t - 7) + ssig0 (ws ! (t - 15)) + ws ! (t - 16)]))"

fun round256 :: "word32 list \<Rightarrow> word32 \<times> word32 \<Rightarrow> word32 list" where
  "round256 [a, b, c, d, e, f, g, h] (k, w) =
     (let t1 = h + bsig1 e + Ch e f g + k + w;
          t2 = bsig0 a + Maj a b c
      in [t1 + t2, a, b, c, d + t1, e, f, g])"
| "round256 s _ = s"

definition compress :: "word32 list \<Rightarrow> byte list \<Rightarrow> word32 list" where
  "compress hs block =
     map2 (+) hs (foldl round256 hs (zip K256 (schedule 48 (block_words block))))"

function absorb :: "word32 list \<Rightarrow> byte list \<Rightarrow> word32 list \<times> byte list" where
  "absorb hs bs =
     (if length bs < 64 then (hs, bs)
      else absorb (compress hs (take 64 bs)) (drop 64 bs))"
  by pat_completeness auto
termination
  by (relation "measure (\<lambda>(hs, bs). length bs)") auto

declare absorb.simps [simp del]

record sha_state =
  chain :: "word32 list"
  pending :: "byte list"
  total :: nat

definition sha256_new :: sha_state where
  "sha256_new = \<lparr>chain = H256, pending = [], total = 0\<rparr>"

definition sha_update :: "sha_state \<Rightarrow> byte list \<Rightarrow> sha_state" where
  "sha_update st data =
     (case absorb (chain st) (pending st @ data) of
        (hs, rest) \<Rightarrow> \<lparr>chain = hs, pending = rest, total = total st + length data\<rparr>)"

definition word32_bytes :: "word32 \<Rightarrow> byte list" where
  "word32_bytes w = [ucast (drop_bit 24 w), ucast (drop_bit 16 w), ucast (drop_bit 8 w), ucast w]"

definition word64_bytes :: "64 word \<Rightarrow> byte list" where
  "word64_bytes w = map (\<lambda>i. ucast (drop_bit (8 * i) w)) [7, 6, 5, 4, 3, 2, 1, 0]"

definition padding :: "nat \<Rightarrow> byte list" where
  "padding n = 0x80 # replicate ((119 - n mod 64) mod 64) 0 @ word64_bytes (of_nat (8 * n))"

definition sha_digest :: "sha_state \<Rightarrow> byte list" where
  "sha_digest st =
     concat (map word32_bytes (fst (absorb (chain st) (pending st @ padding (total st)))))"

definition hex_digit :: "nat \<Rightarrow> char" where
  "hex_digit n = ''0123456789abcdef'' ! n"

definition hex_byte :: "byte \<Rightarrow> string" where
  "hex_byte b = [hex_digit (unat b div 16), hex_digit (unat b mod 16)]"

definition hexdigest :: "sha_state \<Rightarrow> string" where
  "hexdigest st = concat (map hex_byte (sha_digest st))"

function read_chunks :: "nat \<Rightarrow> sha_state \<Rightarrow> byte list \<Rightarrow> sha_state" where
  "read_chunks n digest rest =
     (let chunk = take n rest
      in if chunk = [] then digest
         else read_chunks n (sha_update digest chunk) (drop n rest))"
  by pat_completeness auto
termination
  by (relation "measure (\<lambda>(n, digest, rest). length rest)") auto

declare read_chunks.simps [simp del]

definition sha256_file :: "byte list \<Rightarrow> string" where
  "sha256_file content = hexdigest (read_chunks (1024 * 1024) sha256_new content)"

text \<open>
  The digest of a whole message in one pass, as the standard states it: pad the message,
  cut it into 64-byte blocks, and compress block after block from the initial value.
\<close>

function blocks64 :: "byte list \<Rightarrow> byte list list" where
  "blocks64 bs = (if length bs < 64 then [] else take 64 bs # blocks64 (drop 64 bs))"
  by pat_completeness auto
termination
  by (relation "measure length") auto

declare blocks64.simps [simp del]

definition sha256_one_pass :: "byte list \<Rightarrow> string" where
  "sha256_one_pass content =
     concat (map hex_byte (concat (map word32_bytes
       (foldl compress H256 (blocks64 (content @ padding (length content)))))))"

section \<open>The file system seen by the validator\<close>

text \<open>
  A directory tree holds regular files (their bytes) and directories (their entries in the
  order in which the operating system lists them). A path is the list of its components
  below the file-system root; \<^verbatim>\<open>str(path)\<close> joins them with slashes.
\<close>

datatype node = File "byte list" | Dir "(string \<times> node) list"

type_synonym path = "string list"

fun is_file :: "node \<Rightarrow> bool" where
  "is_file (File _) = True"
| "is_file (Dir _) = False"

fun is_dir :: "node \<Rightarrow> bool" where
  "is_dir (File _) = False"
| "is_dir (Dir _) = True"

fun iterdir :: "node \<Rightarrow> (string \<times> node) list" where
  "iterdir (File _) = []"
| "iterdir (Dir es) = es"

definition path_str :: "path \<Rightarrow> string" where
  "path_str p = (if p = [] then ''/'' else concat (map (\<lambda>c. ''/'' @ c) p))"

fun join :: "string \<Rightarrow> string list \<Rightarrow> string" where
  "join sep [] = []"
| "join sep [x] = x"
| "join sep (x # y # ys) = x @ sep @ join sep (y # ys)"

text \<open>\<^verbatim>\<open>str.rfind\<close> of a character: the index of its last occurrence.\<close>

fun rfind :: "char \<Rightarrow> string \<Rightarrow> nat option" where
  "rfind c [] = None"
| "rfind c (x # xs) =
     (case rfind c xs of
        Some i \<Rightarrow> Some (Suc i)
      | None \<Rightarrow> if x = c then Some 0 else None)"

text \<open>
  \<^verbatim>\<open>PurePath.suffix\<close>: the text from the last dot of the name on, unless that dot is the
  first or the last character of the name (then the name has no suffix).
\<close>

definition suffix :: "string \<Rightarrow> string" where
  "suffix name =
     (case rfind CHR ''.'' name of
        None \<Rightarrow> []
      | Some i \<Rightarrow> if 0 < i \<and> i < length name - 1 then drop i name else [])"

text \<open>\<^verbatim>\<open>(dir / name).stat().st_size\<close> and the bytes of \<^verbatim>\<open>dir / name\<close>, for a regular file.\<close>

definition st_size :: "(string \<times> node) list \<Rightarrow> string \<Rightarrow> nat" where
  "st_size entries name = (case map_of entries name of Some (File c) \<Rightarrow> length c | _ \<Rightarrow> 0)"

definition read_bytes :: "(string \<times> node) list \<Rightarrow> string \<Rightarrow> byte list" where
  "read_bytes entries name = (case map_of entries name of Some (File c) \<Rightarrow> c | _ \<Rightarrow> [])"

section \<open>Metadata documents\<close>

text \<open>
  The values \<^verbatim>\<open>yaml.safe_load\<close> builds. A mapping is the list of its items; the validator
  looks at a value's type, its truth value and its equality with a string only, so every
  other scalar (float, date, binary) is kept as \<open>YOther\<close> with its truth value.
\<close>

datatype yaml =
    YNull
  | YBool bool
  | YInt int
  | YStr string
  | YOther bool
  | YSeq "yaml list"
  | YMap "(yaml \<times> yaml) list"

fun truthy :: "yaml \<Rightarrow> bool" where
  "truthy YNull = False"
| "truthy (YBool b) = b"
| "truthy (YInt i) = (i \<noteq> 0)"
| "truthy (YStr s) = (s \<noteq> [])"
| "truthy (YOther b) = b"
| "truthy (YSeq xs) = (xs \<noteq> [])"
| "truthy (YMap m) = (m \<noteq> [])"

text \<open>\<^verbatim>\<open>d.get(key)\<close> for a string key: \<^verbatim>\<open>None\<close> when the key is absent.\<close>

definition py_get :: "(yaml \<times> yaml) list \<Rightarrow> string \<Rightarrow> yaml" where
  "py_get d k = (case map_of d (YStr k) of None \<Rightarrow> YNull | Some v \<Rightarrow> v)"

text \<open>\<^verbatim>\<open>required - set(d.keys())\<close>: the required names that are not a key of \<open>d\<close>.\<close>

definition missing_keys :: "string set \<Rightarrow> (yaml \<times> yaml) list \<Rightarrow> string set" where
  "missing_keys required d = Set.filter (\<lambda>k. YStr k \<notin> set (map fst d)) required"

text \<open>
  What the validator takes from its environment: the YAML parser applied to the decoded
  bytes of a file (\<open>Inl\<close> the message of the exception it raises), and the order in which
  Python iterates over a set of strings.
\<close>

record env =
  safe_load :: "byte list \<Rightarrow> string + yaml"
  set_iter :: "string set \<Rightarrow> string list"

definition load_metadata :: "env \<Rightarrow> byte list \<Rightarrow> string + (yaml \<times> yaml) list" where
  "load_metadata env content =
     (case safe_load env content of
        Inl exc \<Rightarrow> Inl exc
      | Inr doc \<Rightarrow>
          (case (if truthy doc then doc else YMap []) of
             YMap d \<Rightarrow> Inr d
           | _ \<Rightarrow> Inl ''metadata.yaml must be a mapping''))"

section \<open>Validating one bundle\<close>

definition MAX_SIZE_BYTES :: nat where
  "MAX_SIZE_BYTES = 2 * 1024 * 1024"

definition REQUIRED_FILES :: "string set" where
  "REQUIRED_FILES = {''metadata.yaml'', ''workflow_api.json'', ''workflow_original.json''}"

definition OPTIONAL_FILES :: "string set" where
  "OPTIONAL_FILES = {''README.md'', ''preview.png''}"

definition REQUIRED_META_FIELDS :: "string set" where
  "REQUIRED_META_FIELDS =
     {''name'', ''version'', ''author'', ''description'', ''tags'', ''min_comfyui_version'',
      ''compatible_cindergrace_versions'', ''required_models'', ''recommended_vram_gb'',
      ''contains_non_manager_nodes'', ''non_manager_nodes_info'', ''hashes''}"

definition REQUIRED_HASH_FIELDS :: "string set" where
  "REQUIRED_HASH_FIELDS = {''api_json'', ''original_json''}"

definition file_names :: "(string \<times> node) list \<Rightarrow> string set" where
  "file_names entries = set (map fst (filter (\<lambda>p. is_file (snd p)) entries))"

definition models_names :: "(string \<times> node) list \<Rightarrow> string list" where
  "models_names entries =
     map fst (filter (\<lambda>p. is_file (snd p) \<and> suffix (fst p) = ''.models'') entries)"

definition size_step :: "path \<Rightarrow> (string \<times> node) list \<Rightarrow> string list \<Rightarrow> string \<Rightarrow> string list" where
  "size_step bundle_dir entries errors name =
     (if MAX_SIZE_BYTES < st_size entries name
      then errors @ [path_str bundle_dir @ '': '' @ name @ '' exceeds 2 MB'']
      else errors)"

text \<open>
  \<^verbatim>\<open>validate_bundle(bundle_dir, errors)\<close>: the directory is given by its path and its
  entries, and the list of errors is returned instead of being extended in place.
\<close>

definition validate_bundle ::
  "env \<Rightarrow> path \<Rightarrow> (string \<times> node) list \<Rightarrow> string list \<Rightarrow> string list" where
  "validate_bundle env bundle_dir entries errors =
     (let files = file_names entries;
          missing = REQUIRED_FILES - files
      in if missing \<noteq> {} then
           errors @ [path_str bundle_dir @ '': missing files: '' @
                     join '', '' (sorted_list_of_set missing)]
         else
           let models_files = models_names entries
           in if length models_files \<noteq> 1 then
                errors @ [path_str bundle_dir @ '': must contain exactly one .models file'']
              else
                let allowed = REQUIRED_FILES \<union> OPTIONAL_FILES \<union> set models_files;
                    unknown = sorted_list_of_set (files - allowed);
                    errors1 =
                      (if unknown \<noteq> [] then
                         errors @ [path_str bundle_dir @ '': unknown files present: '' @
                                   join '', '' unknown]
                       else errors);
                    errors2 =
                      foldl (size_step bundle_dir entries) errors1
                        (set_iter env (REQUIRED_FILES \<union> set models_files))
                in case load_metadata env (read_bytes entries ''metadata.yaml'') of
                     Inl exc \<Rightarrow>
                       errors2 @ [path_str bundle_dir @ '': invalid metadata.yaml ('' @ exc @ '')'']
                   | Inr meta \<Rightarrow>
                       let missing_fields = missing_keys REQUIRED_META_FIELDS meta
                       in if missing_fields \<noteq> {} then
                            errors2 @ [path_str bundle_dir @ '': metadata missing fields: '' @
                                       join '', '' (sorted_list_of_set missing_fields)]
                          else
                            (case (let h = py_get meta ''hashes'' in if truthy h then h else YMap []) of
                               YMap hashes \<Rightarrow>
                                 if missing_keys REQUIRED_HASH_FIELDS hashes \<noteq> {} then
                                   errors2 @ [path_str bundle_dir @
                                              '': metadata hashes missing api_json/original_json'']
                                 else
                                   let api_hash = sha256_file (read_bytes entries ''workflow_api.json'');
                                       original_hash =
                                         sha256_file (read_bytes entries ''workflow_original.json'');
                                       errors3 =
                                         (if YStr api_hash \<noteq> py_get hashes ''api_json'' then
                                            errors2 @ [path_str bundle_dir @ '': api_json hash mismatch'']
                                          else errors2)
                                   in if YStr original_hash \<noteq> py_get hashes ''original_json'' then
                                        errors3 @ [path_str bundle_dir @ '': original_json hash mismatch'']
                                      else errors3
                             | _ \<Rightarrow>
                                 errors2 @ [path_str bundle_dir @ '': metadata hashes must be a mapping'']))"

section \<open>Discovering the bundles and the exit status\<close>

text \<open>
  \<^verbatim>\<open>root.rglob("*")\<close>: the directories of the tree are visited parents first, in listing
  order, and the entries of each visited directory are produced in listing order. The root
  itself is not produced, and nothing is produced when the root is not a directory.
\<close>

fun iterate_directories :: "path \<Rightarrow> node \<Rightarrow> (path \<times> node) list" where
  "iterate_directories p (File c) = []"
| "iterate_directories p (Dir es) =
     (p, Dir es) # concat (map (\<lambda>e. iterate_directories (p @ [fst e]) (snd e)) es)"

definition children :: "path \<times> node \<Rightarrow> (path \<times> node) list" where
  "children d = map (\<lambda>e. (fst d @ [fst e], snd e)) (iterdir (snd d))"

definition rglob :: "path \<Rightarrow> node \<Rightarrow> (path \<times> node) list" where
  "rglob p root = concat (map children (iterate_directories p root))"

text \<open>\<^verbatim>\<open>p.is_dir() and (p / "metadata.yaml").exists()\<close>\<close>

definition is_bundle :: "path \<times> node \<Rightarrow> bool" where
  "is_bundle d = (is_dir (snd d) \<and> map_of (iterdir (snd d)) ''metadata.yaml'' \<noteq> None)"

definition find_bundles :: "path \<Rightarrow> node \<Rightarrow> (path \<times> node) list" where
  "find_bundles p root = filter is_bundle (rglob p root)"

definition digit_char :: "nat \<Rightarrow> char" where
  "digit_char n = ''0123456789'' ! n"

function show_nat :: "nat \<Rightarrow> string" where
  "show_nat n = (if n < 10 then [digit_char n] else show_nat (n div 10) @ [digit_char (n mod 10)])"
  by pat_completeness auto
termination
  by (relation "measure id") auto

declare show_nat.simps [simp del]

text \<open>
  \<^verbatim>\<open>main()\<close>: the resolved root path and the tree found there (\<open>None\<close> when the path does
  not exist) are the input; the exit status and the printed lines are the result.
\<close>

definition main :: "env \<Rightarrow> path \<Rightarrow> node option \<Rightarrow> int \<times> string list" where
  "main env root tree =
     (case tree of
        None \<Rightarrow> (1, [''ERROR: workflows root not found: '' @ path_str root])
      | Some t \<Rightarrow>
          let bundles = find_bundles root t
          in if bundles = [] then
               (0, [''WARNING: No workflow bundles found (metadata.yaml missing)''])
             else
               let errors =
                     foldl (\<lambda>errs bundle. validate_bundle env (fst bundle) (iterdir (snd bundle)) errs)
                       [] bundles
               in if errors \<noteq> [] then
                    (1, ''VALIDATION FAILED:'' # map (\<lambda>err. ''- '' @ err) errors)
                  else
                    (0, [''Validation OK: '' @ show_nat (length bundles) @ '' bundle(s)'']))"

section \<open>The checks of a bundle, one by one\<close>

text \<open>
  The errors each non-fatal check contributes and the conditions under which the later
  checks are reached, written separately so that the theorems below can say which part of
  the result of \<open>validate_bundle\<close> comes from which check.
\<close>

definition missing_files :: "(string \<times> node) list \<Rightarrow> string set" where
  "missing_files entries = REQUIRED_FILES - file_names entries"

definition files_ok :: "(string \<times> node) list \<Rightarrow> bool" where
  "files_ok entries = (missing_files entries = {} \<and> length (models_names entries) = 1)"

definition unknown_files :: "(string \<times> node) list \<Rightarrow> string list" where
  "unknown_files entries =
     sorted_list_of_set
       (file_names entries - (REQUIRED_FILES \<union> OPTIONAL_FILES \<union> set (models_names entries)))"

definition unknown_errors :: "path \<Rightarrow> (string \<times> node) list \<Rightarrow> string list" where
  "unknown_errors bundle_dir entries =
     (if unknown_files entries = [] then []
      else [path_str bundle_dir @ '': unknown files present: '' @ join '', '' (unknown_files entries)])"

definition size_error :: "path \<Rightarrow> string \<Rightarrow> string" where
  "size_error bundle_dir name = path_str bundle_dir @ '': '' @ name @ '' exceeds 2 MB''"

definition sized_names :: "(string \<times> node) list \<Rightarrow> string set" where
  "sized_names entries = REQUIRED_FILES \<union> set (models_names entries)"

definition size_errors :: "env \<Rightarrow> path \<Rightarrow> (string \<times> node) list \<Rightarrow> string list" where
  "size_errors env bundle_dir entries =
     map (size_error bundle_dir)
       (filter (\<lambda>name. MAX_SIZE_BYTES < st_size entries name) (set_iter env (sized_names entries)))"

definition hash_errors :: "path \<Rightarrow> (string \<times> node) list \<Rightarrow> (yaml \<times> yaml) list \<Rightarrow> string list" where
  "hash_errors bundle_dir entries hashes =
     (if YStr (sha256_file (read_bytes entries ''workflow_api.json'')) \<noteq> py_get hashes ''api_json''
      then [path_str bundle_dir @ '': api_json hash mismatch''] else []) @
     (if YStr (sha256_file (read_bytes entries ''workflow_original.json'')) \<noteq>
         py_get hashes ''original_json''
      then [path_str bundle_dir @ '': original_json hash mismatch''] else [])"

text \<open>\<^verbatim>\<open>meta.get("hashes") or {}\<close>\<close>

definition hashes_of :: "(yaml \<times> yaml) list \<Rightarrow> yaml" where
  "hashes_of meta = (if truthy (py_get meta ''hashes'') then py_get meta ''hashes'' else YMap [])"

definition metadata_errors :: "env \<Rightarrow> path \<Rightarrow> (string \<times> node) list \<Rightarrow> string list" where
  "metadata_errors env bundle_dir entries =
     (case load_metadata env (read_bytes entries ''metadata.yaml'') of
        Inl exc \<Rightarrow> [path_str bundle_dir @ '': invalid metadata.yaml ('' @ exc @ '')'']
      | Inr meta \<Rightarrow>
          if missing_keys REQUIRED_META_FIELDS meta \<noteq> {} then
            [path_str bundle_dir @ '': metadata missing fields: '' @
             join '', '' (sorted_list_of_set (missing_keys REQUIRED_META_FIELDS meta))]
          else
            (case hashes_of meta of
               YMap hashes \<Rightarrow>
                 if missing_keys REQUIRED_HASH_FIELDS hashes \<noteq> {} then
                   [path_str bundle_dir @ '': metadata hashes missing api_json/original_json'']
                 else hash_errors bundle_dir entries hashes
             | _ \<Rightarrow> [path_str bundle_dir @ '': metadata hashes must be a mapping'']))"

text \<open>A bundle reaches the hash verification with the recorded hashes \<open>hashes\<close>.\<close>

definition reaches_hashes :: "env \<Rightarrow> (string \<times> node) list \<Rightarrow> (yaml \<times> yaml) list \<Rightarrow> bool" where
  "reaches_hashes env entries hashes =
     (files_ok entries \<and>
      (case load_metadata env (read_bytes entries ''metadata.yaml'') of
         Inl exc \<Rightarrow> False
       | Inr meta \<Rightarrow>
           missing_keys REQUIRED_META_FIELDS meta = {} \<and> hashes_of meta = YMap hashes \<and>
           missing_keys REQUIRED_HASH_FIELDS hashes = {}))"

text \<open>Every iteration over a finite set of strings visits each element once.\<close>

definition iter_ok :: "env \<Rightarrow> bool" where
  "iter_ok env = (\<forall>A. finite A \<longrightarrow> set (set_iter env A) = A \<and> distinct (set_iter env A))"

text \<open>A node reached from a directory by a non-empty relative path.\<close>

inductive descendant :: "node \<Rightarrow> path \<Rightarrow> node \<Rightarrow> bool" where
  child: "(n, c) \<in> set es \<Longrightarrow> descendant (Dir es) [n] c"
| deeper: "(n, c) \<in> set es \<Longrightarrow> descendant c q d \<Longrightarrow> descendant (Dir es) (n # q) d"

section \<open>Example bundles\<close>

definition ex_env :: env where
  "ex_env = \<lparr>safe_load = (\<lambda>_. Inl ''bad''), set_iter = sorted_list_of_set\<rparr>"

definition ex_partial :: "(string \<times> node) list" where
  "ex_partial = [(''metadata.yaml'', File []), (''notes.txt'', File [1, 2])]"

text \<open>\<^verbatim>\<open>str.endswith\<close>, and the files of a directory whose name ends in \<^verbatim>\<open>.models\<close>.\<close>

definition endswith :: "string \<Rightarrow> string \<Rightarrow> bool" where
  "endswith s suf = (length suf \<le> length s \<and> drop (length s - length suf) s = suf)"

definition names_ending_models :: "(string \<times> node) list \<Rightarrow> string list" where
  "names_ending_models entries =
     map fst (filter (\<lambda>p. is_file (snd p) \<and> endswith (fst p) ''.models'') entries)"

definition ex_two :: "(string \<times> node) list" where
  "ex_two = [(''metadata.yaml'', File []), (''workflow_api.json'', File []),
     (''workflow_original.json'', File []), (''graph.models'', File []), (''.models'', File [])]"

definition ex_no_models :: "(string \<times> node) list" where
  "ex_no_models = [(''metadata.yaml'', File []), (''workflow_api.json'', File []),
     (''workflow_original.json'', File []), (''.models'', File [])]"

definition ex_notes :: "(string \<times> node) list" where
  "ex_notes = [(''metadata.yaml'', File []), (''workflow_api.json'', File (replicate 2097153 0)),
     (''workflow_original.json'', File (replicate 2097152 0)), (''graph.models'', File []),
     (''notes.txt'', File [])]"

definition ex_fields :: "(yaml \<times> yaml) list" where
  "ex_fields =
     [(YStr ''name'', YStr ''demo''), (YStr ''version'', YStr ''1.0''),
      (YStr ''author'', YStr ''someone''), (YStr ''description'', YStr ''a workflow''),
      (YStr ''tags'', YSeq []), (YStr ''min_comfyui_version'', YStr ''0.3''),
      (YStr ''compatible_cindergrace_versions'', YSeq [YStr ''1.x'']),
      (YStr ''required_models'', YSeq []), (YStr ''recommended_vram_gb'', YInt 8),
      (YStr ''contains_non_manager_nodes'', YBool False),
      (YStr ''non_manager_nodes_info'', YStr [])]"

definition ex_meta_env :: "yaml \<Rightarrow> env" where
  "ex_meta_env hashes =
     \<lparr>safe_load = (\<lambda>_. Inr (YMap (ex_fields @ [(YStr ''hashes'', hashes)]))),
      set_iter = sorted_list_of_set\<rparr>"

definition ex_plain :: "(string \<times> node) list" where
  "ex_plain = [(''metadata.yaml'', File []), (''workflow_api.json'', File [0x61, 0x62, 0x63]),
     (''workflow_original.json'', File []), (''graph.models'', File [])]"

definition ex_hashes :: "(yaml \<times> yaml) list" where
  "ex_hashes =
     [(YStr ''api_json'', YStr ''ba7816bf8f01cfea414140de5dae2223b00361a396177a9cb410ff61f20015ad''),
      (YStr ''original_json'',
       YStr ''ba7816bf8f01cfea414140de5dae2223b00361a396177a9cb410ff61f20015ad'')]"

text \<open>\<^verbatim>\<open>isinstance(value, dict)\<close>\<close>

fun is_mapping :: "yaml \<Rightarrow> bool" where
  "is_mapping (YMap m) = True"
| "is_mapping _ = False"

definition ex_null_env :: env where
  "ex_null_env = \<lparr>safe_load = (\<lambda>_. Inr YNull), set_iter = sorted_list_of_set\<rparr>"

text \<open>The twelve required metadata keys in sorted order.\<close>

definition sorted_meta_fields :: "string list" where
  "sorted_meta_fields =
     [''author'', ''compatible_cindergrace_versions'', ''contains_non_manager_nodes'',
      ''description'', ''hashes'', ''min_comfyui_version'', ''name'', ''non_manager_nodes_info'',
      ''recommended_vram_gb'', ''required_models'', ''tags'', ''version'']"

definition ex_tree :: node where
  "ex_tree = Dir [(''b'', Dir [(''metadata.yaml'', File [])]),
                  (''a'', Dir [(''metadata.yaml'', File [])])]"

definition ex_good_hashes :: "(yaml \<times> yaml) list" where
  "ex_good_hashes =
     [(YStr ''api_json'', YStr ''ba7816bf8f01cfea414140de5dae2223b00361a396177a9cb410ff61f20015ad''),
      (YStr ''original_json'',
       YStr ''e3b0c44298fc1c149afbf4c8996fb92427ae41e4649b934ca495991b7852b855'')]"

definition ex_good_tree :: node where
  "ex_good_tree = Dir [(''README.md'', File []), (''demo'', Dir ex_plain)]"

section \<open>The hash object: absorbing in pieces\<close>

lemma absorb_short: "length bs < 64 \<Longrightarrow> absorb hs bs = (hs, bs)"
  by (simp add: absorb.simps)

lemma absorb_append:
  "absorb hs (as @ bs) = (case absorb hs as of (hs', r) \<Rightarrow> absorb hs' (r @ bs))"
proof (induction hs as rule: absorb.induct)
  case (1 hs as)
  show ?case
  proof (cases "length as < 64")
    case True
    then show ?thesis by (simp add: absorb_short)
  next
    case False
    then have "absorb hs (as @ bs) = absorb (compress hs (take 64 as)) (drop 64 as @ bs)"
      by (subst absorb.simps) simp
    also have "\<dots> = (case absorb (compress hs (take 64 as)) (drop 64 as) of
                        (hs', r) \<Rightarrow> absorb hs' (r @ bs))"
      using False by (rule "1.IH")
    also have "absorb (compress hs (take 64 as)) (drop 64 as) = absorb hs as"
      using False by (subst (2) absorb.simps) simp
    finally show ?thesis .
  qed
qed

lemma absorb_rest_short: "length (snd (absorb hs bs)) < 64"
proof (induction hs bs rule: absorb.induct)
  case (1 hs bs)
  then show ?case by (subst absorb.simps) simp
qed

lemma sha_update_append: "sha_update (sha_update st as) bs = sha_update st (as @ bs)"
  by (simp add: sha_update_def absorb_append [of _ "pending st @ as" bs, simplified] split: prod.splits)

lemma sha_update_pending: "length (pending (sha_update st bs)) < 64"
  using absorb_rest_short [of "chain st" "pending st @ bs"]
  by (auto simp: sha_update_def split: prod.splits)

lemma sha_update_nil: "length (pending st) < 64 \<Longrightarrow> sha_update st [] = st"
  by (simp add: sha_update_def absorb_short)

lemma read_chunks_update:
  "0 < n \<Longrightarrow> length (pending st) < 64 \<Longrightarrow> read_chunks n st rest = sha_update st rest"
proof (induction n st rest rule: read_chunks.induct)
  case (1 n digest rest)
  show ?case
  proof (cases "take n rest = []")
    case True
    with "1.prems" have "rest = []" by simp
    with "1.prems" show ?thesis by (simp add: read_chunks.simps sha_update_nil)
  next
    case False
    then have "read_chunks n digest rest =
               read_chunks n (sha_update digest (take n rest)) (drop n rest)"
      by (subst read_chunks.simps) (simp add: Let_def)
    also have "\<dots> = sha_update (sha_update digest (take n rest)) (drop n rest)"
      using False "1.prems" by (intro "1.IH") (simp_all add: sha_update_pending)
    also have "\<dots> = sha_update digest rest"
      by (simp add: sha_update_append)
    finally show ?thesis .
  qed
qed

lemma absorb_blocks: "fst (absorb hs bs) = foldl compress hs (blocks64 bs)"
proof (induction hs bs rule: absorb.induct)
  case (1 hs bs)
  show ?case
  proof (cases "length bs < 64")
    case True
    then show ?thesis by (simp add: absorb_short blocks64.simps)
  next
    case False
    then show ?thesis
      using "1.IH" by (subst absorb.simps, subst blocks64.simps) simp
  qed
qed

lemma hexdigest_update_new:
  "hexdigest (sha_update sha256_new content) = sha256_one_pass content"
proof -
  obtain hs r where a: "absorb H256 content = (hs, r)"
    by (cases "absorb H256 content")
  have "fst (absorb hs (r @ padding (length content))) =
        fst (absorb H256 (content @ padding (length content)))"
    by (simp add: absorb_append [of H256 content] a)
  then show ?thesis
    by (simp add: hexdigest_def sha_digest_def sha_update_def sha256_new_def a
        sha256_one_pass_def absorb_blocks)
qed

text \<open>The model computes SHA-256: the test vector of the standard for the message "abc".\<close>

lemma sha256_abc:
  "sha256_one_pass [0x61, 0x62, 0x63] =
   ''ba7816bf8f01cfea414140de5dae2223b00361a396177a9cb410ff61f20015ad''"
  by code_simp

text \<open>
  C9. For every file content, the digest \<open>sha256_file\<close> computes by reading the file in
  chunks of 1 MiB and feeding each chunk to the hash object equals the SHA-256 digest of
  the whole content computed in one pass; the content may be shorter or longer than a
  chunk.
\<close>

theorem sha256_file_eq_one_pass: "sha256_file content = sha256_one_pass content"
  by (simp add: sha256_file_def read_chunks_update sha256_new_def
      hexdigest_update_new [unfolded sha256_new_def])

section \<open>The digest is lowercase hexadecimal\<close>

lemma unat_byte_less: "unat (b :: byte) < 256"
  using unsigned_less [of b, where ?'a = nat] by simp

lemma hex_digit_lower: "n < 16 \<Longrightarrow> hex_digit n \<in> set ''0123456789abcdef''"
  unfolding hex_digit_def by (rule nth_mem) simp

lemma hex_byte_lower: "set (hex_byte b) \<subseteq> set ''0123456789abcdef''"
proof -
  have "unat b div 16 < 16" using unat_byte_less [of b] by simp
  moreover have "unat b mod 16 < 16" by simp
  ultimately show ?thesis
    unfolding hex_byte_def using hex_digit_lower by (metis empty_set insert_subset list.simps(15) subsetI empty_iff)
qed

lemma hexdigest_lower: "set (hexdigest st) \<subseteq> set ''0123456789abcdef''"
  unfolding hexdigest_def using hex_byte_lower by (auto simp del: set_simps)

lemma round256_length: "length (round256 s kw) = length s"
  by (cases "(s, kw)" rule: round256.cases) (simp_all add: Let_def)

lemma foldl_round256_length: "length (foldl round256 s kws) = length s"
  by (induction kws arbitrary: s) (simp_all add: round256_length)

lemma compress_length: "length (compress hs block) = length hs"
  by (simp add: compress_def foldl_round256_length)

lemma absorb_chain_length: "length (fst (absorb hs bs)) = length hs"
proof (induction hs bs rule: absorb.induct)
  case (1 hs bs)
  then show ?case by (subst absorb.simps) (simp add: compress_length)
qed

lemma sha_update_chain_length: "length (chain (sha_update st bs)) = length (chain st)"
  using absorb_chain_length [of "chain st" "pending st @ bs"]
  by (auto simp: sha_update_def split: prod.splits)

lemma hexdigest_length: "length (hexdigest st) = 8 * length (chain st)"
proof -
  have "length (concat (map hex_byte bs)) = 2 * length bs" for bs
    by (induction bs) (simp_all add: hex_byte_def)
  moreover have "length (concat (map word32_bytes ws)) = 4 * length ws" for ws
    by (induction ws) (simp_all add: word32_bytes_def)
  ultimately show ?thesis
    by (simp add: hexdigest_def sha_digest_def absorb_chain_length)
qed

lemma sha256_file_length: "length (sha256_file content) = 64"
  by (simp add: sha256_file_def read_chunks_update hexdigest_length
      sha_update_chain_length sha256_new_def H256_def)

lemma sha256_file_lower: "set (sha256_file content) \<subseteq> set ''0123456789abcdef''"
  by (simp only: sha256_file_def hexdigest_lower)

section \<open>The result of a validation, check by check\<close>

lemma foldl_size_step:
  "foldl (size_step d es) errs names =
   errs @ map (size_error d) (filter (\<lambda>name. MAX_SIZE_BYTES < st_size es name) names)"
  by (induction names arbitrary: errs) (simp_all add: size_step_def size_error_def)

lemma validate_bundle_missing:
  "missing_files es \<noteq> {} \<Longrightarrow>
   validate_bundle env d es errs =
   errs @ [path_str d @ '': missing files: '' @ join '', '' (sorted_list_of_set (missing_files es))]"
  by (simp add: validate_bundle_def missing_files_def Let_def)

lemma validate_bundle_models:
  "missing_files es = {} \<Longrightarrow> length (models_names es) \<noteq> 1 \<Longrightarrow>
   validate_bundle env d es errs = errs @ [path_str d @ '': must contain exactly one .models file'']"
  by (simp add: validate_bundle_def missing_files_def Let_def)

lemma validate_bundle_checks:
  "files_ok es \<Longrightarrow>
   validate_bundle env d es errs =
   errs @ unknown_errors d es @ size_errors env d es @ metadata_errors env d es"
  by (simp add: validate_bundle_def files_ok_def missing_files_def Let_def foldl_size_step
      unknown_errors_def unknown_files_def size_errors_def sized_names_def metadata_errors_def
      hashes_of_def hash_errors_def
      split: sum.splits yaml.splits)

lemma finite_file_names: "finite (file_names es)"
  by (simp add: file_names_def)

lemma finite_missing_files: "finite (missing_files es)"
  by (simp add: missing_files_def REQUIRED_FILES_def)

text \<open>
  C3. For every bundle directory that lacks one or more of the three required files among
  its immediate regular files, validation appends exactly one error, which names exactly
  the missing files (sorted), and does nothing else: no size, unknown-file, metadata or
  hash error follows.
\<close>

theorem missing_files_one_error:
  assumes "\<not> REQUIRED_FILES \<subseteq> file_names entries"
  shows "\<exists>names.
           validate_bundle env bundle_dir entries errors =
             errors @ [path_str bundle_dir @ '': missing files: '' @ join '', '' names] \<and>
           set names = REQUIRED_FILES - file_names entries \<and> sorted names \<and> distinct names"
proof -
  from assms have "missing_files entries \<noteq> {}"
    by (auto simp: missing_files_def)
  then have "validate_bundle env bundle_dir entries errors =
      errors @ [path_str bundle_dir @ '': missing files: '' @
                join '', '' (sorted_list_of_set (missing_files entries))]"
    by (rule validate_bundle_missing)
  moreover have "set (sorted_list_of_set (missing_files entries)) = REQUIRED_FILES - file_names entries"
    using finite_missing_files [of entries] by (simp add: missing_files_def)
  ultimately show ?thesis
    by (intro exI [of _ "sorted_list_of_set (missing_files entries)"]) simp
qed

lemma missing_files_ex_partial:
  "missing_files ex_partial = {''workflow_api.json'', ''workflow_original.json''}"
  by (auto simp add: missing_files_def file_names_def ex_partial_def REQUIRED_FILES_def)

lemma sorted_missing_example: "sorted_list_of_set {''workflow_api.json'', ''workflow_original.json''} = [''workflow_api.json'', ''workflow_original.json'']"
  by code_simp

theorem missing_files_one_error_witness:
  "\<not> REQUIRED_FILES \<subseteq> file_names ex_partial \<and>
   validate_bundle ex_env [''w'', ''b''] ex_partial [''earlier''] =
     [''earlier'', ''/w/b: missing files: workflow_api.json, workflow_original.json'']"
proof -
  have h: "\<not> REQUIRED_FILES \<subseteq> file_names ex_partial"
    by (simp add: REQUIRED_FILES_def file_names_def ex_partial_def)
  from missing_files_one_error [OF h, of ex_env "[''w'', ''b'']" "[''earlier'']"]
  obtain names where v: "validate_bundle ex_env [''w'', ''b''] ex_partial [''earlier''] =
             [''earlier''] @ [path_str [''w'', ''b''] @ '': missing files: '' @ join '', '' names]"
    and s: "set names = REQUIRED_FILES - file_names ex_partial" "sorted names" "distinct names"
    by blast
  from s have "names = sorted_list_of_set (missing_files ex_partial)"
    by (metis missing_files_def sorted_list_of_set.idem_if_sorted_distinct)
  then have "names = [''workflow_api.json'', ''workflow_original.json'']"
    by (simp only: missing_files_ex_partial sorted_missing_example)
  with v h show ?thesis by (simp add: path_str_def)
qed

lemma rfind_append:
  "rfind c (s @ t) = (case rfind c t of Some i \<Rightarrow> Some (length s + i) | None \<Rightarrow> rfind c s)"
  by (induction s) (auto split: option.splits)

lemma rfind_less: "rfind c s = Some i \<Longrightarrow> i < length s"
  by (induction s arbitrary: i) (auto split: option.splits if_splits)

lemma suffix_models_iff:
  "suffix name = ''.models'' \<longleftrightarrow> (\<exists>stem. stem \<noteq> [] \<and> name = stem @ ''.models'')"
proof
  assume a: "suffix name = ''.models''"
  then obtain i where i: "rfind CHR ''.'' name = Some i" "0 < i" "drop i name = ''.models''"
    by (auto simp: suffix_def split: option.splits if_splits)
  from i(1) have "i < length name" by (rule rfind_less)
  with i(2) have "take i name \<noteq> []" by auto
  moreover have "name = take i name @ ''.models''"
    using i(3) by (metis append_take_drop_id)
  ultimately show "\<exists>stem. stem \<noteq> [] \<and> name = stem @ ''.models''" by blast
next
  assume "\<exists>stem. stem \<noteq> [] \<and> name = stem @ ''.models''"
  then obtain stem where s: "stem \<noteq> []" "name = stem @ ''.models''" by blast
  have "rfind CHR ''.'' name = Some (length stem)"
    unfolding s(2) by (subst rfind_append) simp
  with s show "suffix name = ''.models''"
    by (simp add: suffix_def)
qed

lemma files_ok_ex_two: "files_ok ex_two"
  by (auto simp: files_ok_def missing_files_def file_names_def models_names_def ex_two_def
      REQUIRED_FILES_def suffix_def)

lemma unknown_ex_two: "unknown_files ex_two = [''.models'']"
proof -
  have "file_names ex_two - (REQUIRED_FILES \<union> OPTIONAL_FILES \<union> set (models_names ex_two)) = {''.models''}"
    by (auto simp: file_names_def models_names_def ex_two_def REQUIRED_FILES_def
        OPTIONAL_FILES_def suffix_def)
  then show ?thesis by (simp add: unknown_files_def)
qed

lemma st_size_ex_two: "st_size ex_two name = 0"
  by (simp add: st_size_def ex_two_def)

lemma size_errors_small:
  "(\<And>name. st_size es name \<le> MAX_SIZE_BYTES) \<Longrightarrow> size_errors env d es = []"
  by (simp add: size_errors_def not_less [symmetric] del: not_less)

text \<open>
  C5, as stated, fails: a bundle with the three required files, \<^verbatim>\<open>graph.models\<close> and a file
  named \<^verbatim>\<open>.models\<close> has two files whose name ends in \<^verbatim>\<open>.models\<close>, but only the first has the
  suffix \<^verbatim>\<open>.models\<close>; the models check passes and the later checks run.
\<close>

theorem models_count_counterexample:
  "length (names_ending_models ex_two) = 2 \<and>
   REQUIRED_FILES \<subseteq> file_names ex_two \<and>
   validate_bundle ex_env [''w'', ''b''] ex_two [] =
     [''/w/b: unknown files present: .models'', ''/w/b: invalid metadata.yaml (bad)'']"
proof -
  have "size_errors ex_env [''w'', ''b''] ex_two = []"
    by (rule size_errors_small) (simp add: st_size_ex_two)
  moreover have "metadata_errors ex_env [''w'', ''b''] ex_two = [''/w/b: invalid metadata.yaml (bad)'']"
    by (simp add: metadata_errors_def load_metadata_def ex_env_def path_str_def)
  moreover have "unknown_errors [''w'', ''b''] ex_two = [''/w/b: unknown files present: .models'']"
    by (simp add: unknown_errors_def unknown_ex_two path_str_def)
  ultimately have "validate_bundle ex_env [''w'', ''b''] ex_two [] =
     [''/w/b: unknown files present: .models'', ''/w/b: invalid metadata.yaml (bad)'']"
    by (simp add: validate_bundle_checks [OF files_ok_ex_two])
  moreover have "length (names_ending_models ex_two) = 2"
    by (simp add: names_ending_models_def ex_two_def endswith_def)
  moreover have "REQUIRED_FILES \<subseteq> file_names ex_two"
    by (simp add: file_names_def ex_two_def REQUIRED_FILES_def)
  ultimately show ?thesis by blast
qed

text \<open>
  C5, amended. For every bundle containing all required files, if the number of immediate
  files whose suffix is \<^verbatim>\<open>.models\<close> (the name is a non-empty stem followed by \<^verbatim>\<open>.models\<close>) is
  zero or greater than one, validation appends exactly one "must contain exactly one
  .models file" error and stops: no unknown-file, size, metadata or hash error follows.
\<close>

theorem models_count_one_error:
  assumes "REQUIRED_FILES \<subseteq> file_names entries"
    and "length (models_names entries) \<noteq> 1"
  shows "validate_bundle env bundle_dir entries errors =
           errors @ [path_str bundle_dir @ '': must contain exactly one .models file''] \<and>
         models_names entries =
           map fst (filter (\<lambda>p. is_file (snd p) \<and>
                                 (\<exists>stem. stem \<noteq> [] \<and> fst p = stem @ ''.models'')) entries)"
proof -
  from assms(1) have "missing_files entries = {}"
    by (auto simp: missing_files_def)
  then have "validate_bundle env bundle_dir entries errors =
           errors @ [path_str bundle_dir @ '': must contain exactly one .models file'']"
    using assms(2) by (rule validate_bundle_models)
  then show ?thesis
    by (simp add: models_names_def suffix_models_iff)
qed

theorem models_count_one_error_witness:
  "REQUIRED_FILES \<subseteq> file_names ex_no_models \<and> length (models_names ex_no_models) \<noteq> 1 \<and>
   validate_bundle ex_env [''w'', ''b''] ex_no_models [] =
     [''/w/b: must contain exactly one .models file'']"
proof -
  have h1: "REQUIRED_FILES \<subseteq> file_names ex_no_models"
    by (simp add: file_names_def ex_no_models_def REQUIRED_FILES_def)
  have h2: "length (models_names ex_no_models) \<noteq> 1"
    by (simp add: models_names_def ex_no_models_def suffix_def)
  show ?thesis
    using models_count_one_error [OF h1 h2, of ex_env "[''w'', ''b'']" "[]"] h1 h2
    by (simp add: path_str_def)
qed

lemma finite_unknown: "finite (file_names es - A)"
  by (simp add: file_names_def)

text \<open>
  C6. For every bundle that passes the required-file and models-file checks and has an
  immediate file outside the allow-list (the three required files, \<^verbatim>\<open>README.md\<close>,
  \<^verbatim>\<open>preview.png\<close> and the single \<^verbatim>\<open>.models\<close> file), validation appends exactly one unknown-file
  error listing the offending names, and goes on: the errors of the size check and of the
  metadata and hash checks follow it.
\<close>

theorem unknown_files_nonfatal:
  assumes "files_ok entries"
    and "\<not> file_names entries \<subseteq> REQUIRED_FILES \<union> OPTIONAL_FILES \<union> set (models_names entries)"
  shows "\<exists>names.
           validate_bundle env bundle_dir entries errors =
             errors @ [path_str bundle_dir @ '': unknown files present: '' @ join '', '' names] @
             size_errors env bundle_dir entries @ metadata_errors env bundle_dir entries \<and>
           set names =
             file_names entries - (REQUIRED_FILES \<union> OPTIONAL_FILES \<union> set (models_names entries)) \<and>
           sorted names \<and> distinct names"
proof -
  let ?U = "file_names entries - (REQUIRED_FILES \<union> OPTIONAL_FILES \<union> set (models_names entries))"
  have s: "set (unknown_files entries) = ?U"
    by (simp add: unknown_files_def finite_unknown)
  with assms(2) have "unknown_files entries \<noteq> []" by auto
  then have "validate_bundle env bundle_dir entries errors =
             errors @ [path_str bundle_dir @ '': unknown files present: '' @
                       join '', '' (unknown_files entries)] @
             size_errors env bundle_dir entries @ metadata_errors env bundle_dir entries"
    by (simp add: validate_bundle_checks [OF assms(1)] unknown_errors_def)
  moreover have "sorted (unknown_files entries)" "distinct (unknown_files entries)"
    by (simp_all add: unknown_files_def)
  ultimately show ?thesis using s by blast
qed

lemma files_ok_ex_notes: "files_ok ex_notes"
  by (auto simp: files_ok_def missing_files_def file_names_def models_names_def ex_notes_def
      REQUIRED_FILES_def suffix_def)

lemma unknown_set_ex_notes:
  "file_names ex_notes - (REQUIRED_FILES \<union> OPTIONAL_FILES \<union> set (models_names ex_notes)) =
   {''notes.txt''}"
  by (auto simp: file_names_def models_names_def ex_notes_def REQUIRED_FILES_def
        OPTIONAL_FILES_def suffix_def)

lemma sized_names_ex_notes:
  "sized_names ex_notes =
   {''graph.models'', ''metadata.yaml'', ''workflow_api.json'', ''workflow_original.json''}"
  by (auto simp: sized_names_def models_names_def ex_notes_def REQUIRED_FILES_def suffix_def)

lemma sorted_sized_example:
  "sorted_list_of_set
     {''graph.models'', ''metadata.yaml'', ''workflow_api.json'', ''workflow_original.json''} =
   [''graph.models'', ''metadata.yaml'', ''workflow_api.json'', ''workflow_original.json'']"
  by code_simp

lemma set_iter_ex_notes:
  "set_iter ex_env (sized_names ex_notes) =
   [''graph.models'', ''metadata.yaml'', ''workflow_api.json'', ''workflow_original.json'']"
  by (simp only: ex_env_def env.simps sized_names_ex_notes sorted_sized_example)

lemma size_errors_ex_notes:
  "size_errors ex_env [''w'', ''b''] ex_notes = [''/w/b: workflow_api.json exceeds 2 MB'']"
  unfolding size_errors_def set_iter_ex_notes
  by (simp add: st_size_def ex_notes_def MAX_SIZE_BYTES_def size_error_def path_str_def)

lemma distinct_set_single: "distinct xs \<Longrightarrow> set xs = {x} \<Longrightarrow> xs = [x]"
  by (cases xs; cases "tl xs") auto

lemma metadata_errors_ex_env:
  "metadata_errors ex_env [''w'', ''b''] es = [''/w/b: invalid metadata.yaml (bad)'']"
  by (simp add: metadata_errors_def load_metadata_def ex_env_def path_str_def)

theorem unknown_files_nonfatal_witness:
  "files_ok ex_notes \<and>
   \<not> file_names ex_notes \<subseteq> REQUIRED_FILES \<union> OPTIONAL_FILES \<union> set (models_names ex_notes) \<and>
   validate_bundle ex_env [''w'', ''b''] ex_notes [] =
     [''/w/b: unknown files present: notes.txt'', ''/w/b: workflow_api.json exceeds 2 MB'',
      ''/w/b: invalid metadata.yaml (bad)'']"
proof -
  have h: "\<not> file_names ex_notes \<subseteq> REQUIRED_FILES \<union> OPTIONAL_FILES \<union> set (models_names ex_notes)"
    using unknown_set_ex_notes by blast
  from unknown_files_nonfatal [OF files_ok_ex_notes h, of ex_env "[''w'', ''b'']" "[]"]
  obtain names where v: "validate_bundle ex_env [''w'', ''b''] ex_notes [] =
             [] @ [path_str [''w'', ''b''] @ '': unknown files present: '' @ join '', '' names] @
             size_errors ex_env [''w'', ''b''] ex_notes @ metadata_errors ex_env [''w'', ''b''] ex_notes"
    and s: "set names = {''notes.txt''}" "distinct names"
    unfolding unknown_set_ex_notes by blast
  from s have "names = [''notes.txt'']"
    by (intro distinct_set_single)
  with v show ?thesis
    using files_ok_ex_notes h
    by (simp add: size_errors_ex_notes metadata_errors_ex_env path_str_def)
qed

lemma size_error_inj: "size_error d a = size_error d b \<Longrightarrow> a = b"
  by (simp add: size_error_def)

lemma finite_sized_names: "finite (sized_names es)"
  by (simp add: sized_names_def REQUIRED_FILES_def)

text \<open>
  C8. For every bundle that passes the required-file and models-file checks, the size
  check reports each of the three required files and the single \<^verbatim>\<open>.models\<close> file whose size
  is strictly above 2 MiB (2 * 1024 * 1024 bytes) by one error of its own naming the file,
  reports no file of at most 2 MiB (so none of exactly 2 MiB), and does not stop the
  validation: the errors of the metadata and hash checks follow. Every iteration over a
  set is taken to visit each element once.
\<close>

theorem size_errors_individual:
  assumes "files_ok entries" and "iter_ok env"
  shows "validate_bundle env bundle_dir entries errors =
           errors @ unknown_errors bundle_dir entries @ size_errors env bundle_dir entries @
           metadata_errors env bundle_dir entries \<and>
         distinct (size_errors env bundle_dir entries) \<and>
         set (size_errors env bundle_dir entries) =
           size_error bundle_dir `
             {name \<in> REQUIRED_FILES \<union> set (models_names entries).
                2 * 1024 * 1024 < st_size entries name} \<and>
         (\<forall>name. st_size entries name \<le> 2 * 1024 * 1024 \<longrightarrow>
            size_error bundle_dir name \<notin> set (size_errors env bundle_dir entries))"
proof -
  let ?it = "set_iter env (sized_names entries)"
  from assms(2) have it: "set ?it = sized_names entries" "distinct ?it"
    using finite_sized_names [of entries] by (auto simp: iter_ok_def)
  have d: "distinct (size_errors env bundle_dir entries)"
    unfolding size_errors_def using it(2)
    by (auto simp: distinct_map inj_on_def dest: size_error_inj)
  have s: "set (size_errors env bundle_dir entries) =
           size_error bundle_dir `
             {name \<in> REQUIRED_FILES \<union> set (models_names entries).
                2 * 1024 * 1024 < st_size entries name}"
    unfolding size_errors_def using it(1)
    by (auto simp: sized_names_def MAX_SIZE_BYTES_def)
  have "size_error bundle_dir name \<notin> set (size_errors env bundle_dir entries)"
    if "st_size entries name \<le> 2 * 1024 * 1024" for name
    using that unfolding s by (auto dest: size_error_inj)
  with d s validate_bundle_checks [OF assms(1)] show ?thesis by blast
qed

lemma iter_ok_ex_env: "iter_ok ex_env"
  by (simp add: iter_ok_def ex_env_def)

theorem size_errors_individual_witness:
  "files_ok ex_notes \<and> iter_ok ex_env \<and>
   st_size ex_notes ''workflow_api.json'' = 2 * 1024 * 1024 + 1 \<and>
   st_size ex_notes ''workflow_original.json'' = 2 * 1024 * 1024 \<and>
   size_error [''w'', ''b''] ''workflow_api.json'' \<in> set (size_errors ex_env [''w'', ''b''] ex_notes) \<and>
   size_error [''w'', ''b''] ''workflow_original.json'' \<notin> set (size_errors ex_env [''w'', ''b''] ex_notes) \<and>
   validate_bundle ex_env [''w'', ''b''] ex_notes [] =
     [''/w/b: unknown files present: notes.txt'', ''/w/b: workflow_api.json exceeds 2 MB'',
      ''/w/b: invalid metadata.yaml (bad)'']"
proof -
  have a: "st_size ex_notes ''workflow_api.json'' = 2 * 1024 * 1024 + 1"
    and b: "st_size ex_notes ''workflow_original.json'' = 2 * 1024 * 1024"
    by (simp_all add: st_size_def ex_notes_def)
  have u: "unknown_errors [''w'', ''b''] ex_notes = [''/w/b: unknown files present: notes.txt'']"
    by (simp add: unknown_errors_def unknown_files_def unknown_set_ex_notes path_str_def)
  have r: "''workflow_api.json'' \<in> REQUIRED_FILES \<union> set (models_names ex_notes)"
    by (simp add: REQUIRED_FILES_def)
  note t = size_errors_individual [OF files_ok_ex_notes iter_ok_ex_env, of "[''w'', ''b'']" "[]"]
  from t have "size_error [''w'', ''b''] ''workflow_api.json'' \<in> set (size_errors ex_env [''w'', ''b''] ex_notes)"
    using a r by auto
  moreover have "size_error [''w'', ''b''] ''workflow_original.json'' \<notin> set (size_errors ex_env [''w'', ''b''] ex_notes)"
  proof -
    from t have "\<forall>name. st_size ex_notes name \<le> 2 * 1024 * 1024 \<longrightarrow>
            size_error [''w'', ''b''] name \<notin> set (size_errors ex_env [''w'', ''b''] ex_notes)"
      by (elim conjE)
    with b show ?thesis by simp
  qed
  moreover from t have "validate_bundle ex_env [''w'', ''b''] ex_notes [] =
     [''/w/b: unknown files present: notes.txt'', ''/w/b: workflow_api.json exceeds 2 MB'',
      ''/w/b: invalid metadata.yaml (bad)'']"
    by (simp add: u size_errors_ex_notes metadata_errors_ex_env)
  ultimately show ?thesis
    using files_ok_ex_notes iter_ok_ex_env a b by blast
qed

lemma files_ok_ex_plain: "files_ok ex_plain"
  by (auto simp: files_ok_def missing_files_def file_names_def models_names_def ex_plain_def
      REQUIRED_FILES_def suffix_def)

lemma load_metadata_ex_meta:
  "load_metadata (ex_meta_env h) content = Inr (ex_fields @ [(YStr ''hashes'', h)])"
  by (simp add: load_metadata_def ex_meta_env_def ex_fields_def)

lemma missing_keys_ex_meta:
  "missing_keys REQUIRED_META_FIELDS (ex_fields @ [(YStr ''hashes'', h)]) = {}"
  by (auto simp: missing_keys_def REQUIRED_META_FIELDS_def ex_fields_def)

lemma py_get_ex_meta: "py_get (ex_fields @ [(YStr ''hashes'', h)]) ''hashes'' = h"
  by (simp add: py_get_def ex_fields_def)

lemma missing_keys_ex_hashes: "missing_keys REQUIRED_HASH_FIELDS ex_hashes = {}"
  by (auto simp: missing_keys_def REQUIRED_HASH_FIELDS_def ex_hashes_def)

lemma reaches_hashes_ex: "reaches_hashes (ex_meta_env (YMap ex_hashes)) ex_plain ex_hashes"
  by (simp add: reaches_hashes_def files_ok_ex_plain load_metadata_ex_meta missing_keys_ex_meta
      hashes_of_def py_get_ex_meta missing_keys_ex_hashes)

lemma sha256_file_update: "sha256_file content = hexdigest (sha_update sha256_new content)"
  by (simp add: sha256_file_def read_chunks_update sha256_new_def)

lemma sha256_empty:
  "sha256_one_pass [] = ''e3b0c44298fc1c149afbf4c8996fb92427ae41e4649b934ca495991b7852b855''"
  by code_simp

lemma read_bytes_file:
  "distinct (map fst es) \<Longrightarrow> (name, File c) \<in> set es \<Longrightarrow> read_bytes es name = c"
  by (simp add: read_bytes_def)

lemma metadata_errors_reached:
  "reaches_hashes env es hashes \<Longrightarrow> metadata_errors env d es = hash_errors d es hashes"
  by (auto simp: reaches_hashes_def metadata_errors_def split: sum.splits)

text \<open>
  C4. For every bundle that reaches the hash verification, the SHA-256 digest of the bytes
  of \<^verbatim>\<open>workflow_api.json\<close> and that of the bytes of \<^verbatim>\<open>workflow_original.json\<close>, lowercase
  hexadecimal strings, are each compared with the value recorded in the metadata; each
  mismatch is reported by an error of its own, whatever the other comparison gives, and a
  bundle whose recorded values equal both digests gets no hash error. The names of a
  directory's entries are distinct.
\<close>

theorem hash_checks_independent:
  assumes "reaches_hashes env entries hashes"
    and "distinct (map fst entries)"
    and "(''workflow_api.json'', File api) \<in> set entries"
    and "(''workflow_original.json'', File original) \<in> set entries"
  shows "validate_bundle env bundle_dir entries errors =
           errors @ unknown_errors bundle_dir entries @ size_errors env bundle_dir entries @
           (if py_get hashes ''api_json'' = YStr (sha256_one_pass api) then []
            else [path_str bundle_dir @ '': api_json hash mismatch'']) @
           (if py_get hashes ''original_json'' = YStr (sha256_one_pass original) then []
            else [path_str bundle_dir @ '': original_json hash mismatch'']) \<and>
         set (sha256_one_pass api) \<subseteq> set ''0123456789abcdef'' \<and>
         set (sha256_one_pass original) \<subseteq> set ''0123456789abcdef''"
proof -
  from assms(1) have ok: "files_ok entries" by (simp add: reaches_hashes_def)
  have a: "sha256_file (read_bytes entries ''workflow_api.json'') = sha256_one_pass api"
    using assms(2,3) by (simp only: read_bytes_file sha256_file_update hexdigest_update_new)
  have b: "sha256_file (read_bytes entries ''workflow_original.json'') = sha256_one_pass original"
    using assms(2,4) by (simp only: read_bytes_file sha256_file_update hexdigest_update_new)
  have l: "set (sha256_one_pass c) \<subseteq> set ''0123456789abcdef''" for c
    using sha256_file_lower [of c] by (simp only: sha256_file_update hexdigest_update_new)
  have "hash_errors bundle_dir entries hashes =
           (if py_get hashes ''api_json'' = YStr (sha256_one_pass api) then []
            else [path_str bundle_dir @ '': api_json hash mismatch'']) @
           (if py_get hashes ''original_json'' = YStr (sha256_one_pass original) then []
            else [path_str bundle_dir @ '': original_json hash mismatch''])"
    unfolding hash_errors_def a b by auto
  then show ?thesis
    using metadata_errors_reached [OF assms(1), of bundle_dir] l
    by (simp only: validate_bundle_checks [OF ok] simp_thms)
qed

theorem hash_checks_independent_witness:
  "reaches_hashes (ex_meta_env (YMap ex_hashes)) ex_plain ex_hashes \<and>
   distinct (map fst ex_plain) \<and>
   (''workflow_api.json'', File [0x61, 0x62, 0x63]) \<in> set ex_plain \<and>
   (''workflow_original.json'', File []) \<in> set ex_plain \<and>
   py_get ex_hashes ''api_json'' = YStr (sha256_one_pass [0x61, 0x62, 0x63]) \<and>
   py_get ex_hashes ''original_json'' \<noteq> YStr (sha256_one_pass []) \<and>
   validate_bundle (ex_meta_env (YMap ex_hashes)) [''w'', ''b''] ex_plain [] =
     [''/w/b: original_json hash mismatch'']"
proof -
  have d: "distinct (map fst ex_plain)"
    by (simp add: ex_plain_def)
  have fa: "(''workflow_api.json'', File [0x61, 0x62, 0x63]) \<in> set ex_plain"
    and fo: "(''workflow_original.json'', File []) \<in> set ex_plain"
    by (simp_all add: ex_plain_def)
  have u: "unknown_errors [''w'', ''b''] ex_plain = []"
    by (auto simp: unknown_errors_def unknown_files_def file_names_def ex_plain_def
        REQUIRED_FILES_def models_names_def suffix_def)
  have s: "size_errors (ex_meta_env (YMap ex_hashes)) [''w'', ''b''] ex_plain = []"
    by (rule size_errors_small) (simp add: st_size_def ex_plain_def MAX_SIZE_BYTES_def)
  have g: "py_get ex_hashes ''api_json'' =
       YStr ''ba7816bf8f01cfea414140de5dae2223b00361a396177a9cb410ff61f20015ad''"
    "py_get ex_hashes ''original_json'' =
       YStr ''ba7816bf8f01cfea414140de5dae2223b00361a396177a9cb410ff61f20015ad''"
    by (simp_all add: py_get_def ex_hashes_def)
  show ?thesis
    using hash_checks_independent [OF reaches_hashes_ex d fa fo, of "[''w'', ''b'']" "[]"]
      reaches_hashes_ex d fa fo
    by (simp add: u s g sha256_abc sha256_empty path_str_def)
qed

lemma metadata_errors_fields:
  assumes "load_metadata env (read_bytes es ''metadata.yaml'') = Inr meta"
    and "missing_keys REQUIRED_META_FIELDS meta = {}"
  shows "metadata_errors env d es =
     (case hashes_of meta of
        YMap hashes \<Rightarrow>
          if missing_keys REQUIRED_HASH_FIELDS hashes \<noteq> {} then
            [path_str d @ '': metadata hashes missing api_json/original_json'']
          else hash_errors d es hashes
      | _ \<Rightarrow> [path_str d @ '': metadata hashes must be a mapping''])"
  using assms by (simp add: metadata_errors_def)

lemma missing_keys_nil: "missing_keys REQUIRED_HASH_FIELDS [] \<noteq> {}"
  by (auto simp: missing_keys_def REQUIRED_HASH_FIELDS_def)

text \<open>
  C2, as stated, fails: when the metadata records \<^verbatim>\<open>hashes: null\<close> (not a mapping), the value
  is replaced by an empty mapping and the error is the one about the missing sub-keys, not
  "hashes must be a mapping".
\<close>

theorem hashes_not_mapping_counterexample:
  "load_metadata (ex_meta_env YNull) (read_bytes ex_plain ''metadata.yaml'') =
     Inr (ex_fields @ [(YStr ''hashes'', YNull)]) \<and>
   missing_keys REQUIRED_META_FIELDS (ex_fields @ [(YStr ''hashes'', YNull)]) = {} \<and>
   py_get (ex_fields @ [(YStr ''hashes'', YNull)]) ''hashes'' = YNull \<and>
   validate_bundle (ex_meta_env YNull) [''w'', ''b''] ex_plain [] =
     [''/w/b: metadata hashes missing api_json/original_json'']"
proof -
  have u: "unknown_errors [''w'', ''b''] ex_plain = []"
    by (auto simp: unknown_errors_def unknown_files_def file_names_def ex_plain_def
        REQUIRED_FILES_def models_names_def suffix_def)
  have s: "size_errors (ex_meta_env YNull) [''w'', ''b''] ex_plain = []"
    by (rule size_errors_small) (simp add: st_size_def ex_plain_def MAX_SIZE_BYTES_def)
  have m: "metadata_errors (ex_meta_env YNull) [''w'', ''b''] ex_plain =
           [''/w/b: metadata hashes missing api_json/original_json'']"
    by (simp add: metadata_errors_fields [OF load_metadata_ex_meta missing_keys_ex_meta]
        hashes_of_def py_get_ex_meta missing_keys_nil path_str_def)
  show ?thesis
    by (simp only: load_metadata_ex_meta missing_keys_ex_meta py_get_ex_meta
        validate_bundle_checks [OF files_ok_ex_plain] u s m append_Nil simp_thms)
qed

text \<open>
  C2, amended. For every bundle that passes the required-file and models-file checks and
  whose metadata parses and has all required fields: if the value of \<^verbatim>\<open>hashes\<close> is truthy
  and not a mapping, validation reports "hashes must be a mapping" and stops; if it is
  falsy (null, false, 0, an empty string, sequence or mapping), or a mapping that lacks
  \<^verbatim>\<open>api_json\<close> or \<^verbatim>\<open>original_json\<close>, validation reports the one error "hashes missing
  api_json/original_json" and stops.
\<close>

theorem hashes_field_check:
  assumes "files_ok entries"
    and "load_metadata env (read_bytes entries ''metadata.yaml'') = Inr meta"
    and "missing_keys REQUIRED_META_FIELDS meta = {}"
  shows "(truthy (py_get meta ''hashes'') \<and> \<not> is_mapping (py_get meta ''hashes'') \<longrightarrow>
            validate_bundle env bundle_dir entries errors =
              errors @ unknown_errors bundle_dir entries @ size_errors env bundle_dir entries @
              [path_str bundle_dir @ '': metadata hashes must be a mapping'']) \<and>
         (\<not> truthy (py_get meta ''hashes'') \<longrightarrow>
            validate_bundle env bundle_dir entries errors =
              errors @ unknown_errors bundle_dir entries @ size_errors env bundle_dir entries @
              [path_str bundle_dir @ '': metadata hashes missing api_json/original_json'']) \<and>
         (\<forall>hashes. py_get meta ''hashes'' = YMap hashes \<and>
            \<not> REQUIRED_HASH_FIELDS \<subseteq> {k. YStr k \<in> fst ` set hashes} \<longrightarrow>
            validate_bundle env bundle_dir entries errors =
              errors @ unknown_errors bundle_dir entries @ size_errors env bundle_dir entries @
              [path_str bundle_dir @ '': metadata hashes missing api_json/original_json''])"
proof -
  note m = metadata_errors_fields [OF assms(2,3), of bundle_dir]
  note v = validate_bundle_checks [OF assms(1), of env bundle_dir errors]
  have a: "metadata_errors env bundle_dir entries =
           [path_str bundle_dir @ '': metadata hashes must be a mapping'']"
    if "truthy (py_get meta ''hashes'')" "\<not> is_mapping (py_get meta ''hashes'')"
    using that unfolding m hashes_of_def by (cases "py_get meta ''hashes''") simp_all
  have b: "metadata_errors env bundle_dir entries =
           [path_str bundle_dir @ '': metadata hashes missing api_json/original_json'']"
    if "\<not> truthy (py_get meta ''hashes'')"
    using that unfolding m hashes_of_def by (simp add: missing_keys_nil)
  have c: "metadata_errors env bundle_dir entries =
           [path_str bundle_dir @ '': metadata hashes missing api_json/original_json'']"
    if "py_get meta ''hashes'' = YMap hashes"
      "\<not> REQUIRED_HASH_FIELDS \<subseteq> {k. YStr k \<in> fst ` set hashes}" for hashes
  proof (cases "hashes = []")
    case True
    with that(1) show ?thesis unfolding m hashes_of_def by (simp add: missing_keys_nil)
  next
    case False
    from that(2) have "missing_keys REQUIRED_HASH_FIELDS hashes \<noteq> {}"
      by (auto simp: missing_keys_def)
    with that(1) False show ?thesis unfolding m hashes_of_def by simp
  qed
  show ?thesis
    unfolding v using a b c by simp
qed

theorem hashes_field_check_witness:
  "files_ok ex_plain \<and>
   load_metadata (ex_meta_env (YStr ''abc'')) (read_bytes ex_plain ''metadata.yaml'') =
     Inr (ex_fields @ [(YStr ''hashes'', YStr ''abc'')]) \<and>
   missing_keys REQUIRED_META_FIELDS (ex_fields @ [(YStr ''hashes'', YStr ''abc'')]) = {} \<and>
   validate_bundle (ex_meta_env (YStr ''abc'')) [''w'', ''b''] ex_plain [] =
     [''/w/b: metadata hashes must be a mapping'']"
proof -
  have u: "unknown_errors [''w'', ''b''] ex_plain = []"
    by (auto simp: unknown_errors_def unknown_files_def file_names_def ex_plain_def
        REQUIRED_FILES_def models_names_def suffix_def)
  have s: "size_errors (ex_meta_env (YStr ''abc'')) [''w'', ''b''] ex_plain = []"
    by (rule size_errors_small) (simp add: st_size_def ex_plain_def MAX_SIZE_BYTES_def)
  show ?thesis
    using hashes_field_check [OF files_ok_ex_plain load_metadata_ex_meta missing_keys_ex_meta,
        of "YStr ''abc''" "[''w'', ''b'']" "[]"]
      files_ok_ex_plain
    by (simp add: load_metadata_ex_meta missing_keys_ex_meta py_get_ex_meta u s path_str_def)
qed

lemma sorted_meta_fields: "sorted_list_of_set REQUIRED_META_FIELDS = sorted_meta_fields"
  unfolding REQUIRED_META_FIELDS_def sorted_meta_fields_def by code_simp

lemma missing_keys_empty: "missing_keys required [] = required"
  by (auto simp: missing_keys_def)

lemma load_metadata_null:
  "safe_load env content = Inr YNull \<Longrightarrow> load_metadata env content = Inr []"
  by (simp add: load_metadata_def)

text \<open>
  C10. For every bundle whose \<^verbatim>\<open>metadata.yaml\<close>, when the validation comes to load it, is
  empty or parses to YAML null, \<open>load_metadata\<close> returns the empty mapping instead of
  rejecting the document, and validation reports a "metadata missing fields" error listing
  all twelve required keys, not an "invalid metadata.yaml" error.
\<close>

theorem null_metadata_missing_fields:
  assumes "files_ok entries"
    and "safe_load env (read_bytes entries ''metadata.yaml'') = Inr YNull"
  shows "load_metadata env (read_bytes entries ''metadata.yaml'') = Inr [] \<and>
         validate_bundle env bundle_dir entries errors =
           errors @ unknown_errors bundle_dir entries @ size_errors env bundle_dir entries @
           [path_str bundle_dir @ '': metadata missing fields: '' @ join '', '' sorted_meta_fields] \<and>
         set sorted_meta_fields = REQUIRED_META_FIELDS \<and> length sorted_meta_fields = 12"
proof -
  have l: "load_metadata env (read_bytes entries ''metadata.yaml'') = Inr []"
    using assms(2) by (rule load_metadata_null)
  have ne: "REQUIRED_META_FIELDS \<noteq> {}"
    by (simp add: REQUIRED_META_FIELDS_def)
  have "metadata_errors env bundle_dir entries =
        [path_str bundle_dir @ '': metadata missing fields: '' @ join '', '' sorted_meta_fields]"
    by (simp add: metadata_errors_def l missing_keys_empty ne sorted_meta_fields)
  moreover have "set sorted_meta_fields = REQUIRED_META_FIELDS"
    by (auto simp: sorted_meta_fields_def REQUIRED_META_FIELDS_def)
  moreover have "length sorted_meta_fields = 12"
    by (simp add: sorted_meta_fields_def)
  ultimately show ?thesis
    using l by (simp add: validate_bundle_checks [OF assms(1)])
qed

theorem null_metadata_missing_fields_witness:
  "files_ok ex_plain \<and>
   safe_load ex_null_env (read_bytes ex_plain ''metadata.yaml'') = Inr YNull \<and>
   validate_bundle ex_null_env [''w'', ''b''] ex_plain [] =
     [''/w/b: metadata missing fields: author, compatible_cindergrace_versions, contains_non_manager_nodes, description, hashes, min_comfyui_version, name, non_manager_nodes_info, recommended_vram_gb, required_models, tags, version'']"
proof -
  have h: "safe_load ex_null_env (read_bytes ex_plain ''metadata.yaml'') = Inr YNull"
    by (simp add: ex_null_env_def)
  have u: "unknown_errors [''w'', ''b''] ex_plain = []"
    by (auto simp: unknown_errors_def unknown_files_def file_names_def ex_plain_def
        REQUIRED_FILES_def models_names_def suffix_def)
  have s: "size_errors ex_null_env [''w'', ''b''] ex_plain = []"
    by (rule size_errors_small) (simp add: st_size_def ex_plain_def MAX_SIZE_BYTES_def)
  show ?thesis
    using null_metadata_missing_fields [OF files_ok_ex_plain h, of "[''w'', ''b'']" "[]"]
      files_ok_ex_plain h
    by (simp add: u s path_str_def sorted_meta_fields_def)
qed

section \<open>The bundles found under a root\<close>

lemma rglob_File: "rglob r (File c) = []"
  by (simp add: rglob_def)

lemma concat_map_concat: "concat (map f (concat xss)) = concat (map (\<lambda>xs. concat (map f xs)) xss)"
  by (induction xss) simp_all

lemma rglob_Dir:
  "rglob r (Dir es) =
   children (r, Dir es) @ concat (map (\<lambda>e. rglob (r @ [fst e]) (snd e)) es)"
  by (simp add: rglob_def concat_map_concat comp_def)

lemma filter_concat_map: "filter P (concat (map f xs)) = concat (map (\<lambda>x. filter P (f x)) xs)"
  by (induction xs) simp_all

lemma find_bundles_File: "find_bundles r (File c) = []"
  by (simp add: find_bundles_def rglob_File)

lemma find_bundles_Dir:
  "find_bundles r (Dir es) =
   filter is_bundle (children (r, Dir es)) @
   concat (map (\<lambda>e. find_bundles (r @ [fst e]) (snd e)) es)"
  by (simp add: find_bundles_def rglob_Dir filter_concat_map)

lemma descendant_rglob: "descendant t q d \<Longrightarrow> (r @ q, d) \<in> set (rglob r t)"
proof (induction arbitrary: r rule: descendant.induct)
  case (child n c es)
  then show ?case by (force simp: rglob_Dir children_def)
next
  case (deeper n c es q d)
  from deeper.IH [of "r @ [n]"] deeper.hyps(1) show ?case
    by (force simp: rglob_Dir)
qed

lemma rglob_descendant: "(p, d) \<in> set (rglob r t) \<Longrightarrow> \<exists>q. p = r @ q \<and> descendant t q d"
proof (induction t arbitrary: r)
  case (File c)
  then show ?case by (simp add: rglob_File)
next
  case (Dir es)
  from Dir.prems consider
    (kid) "(p, d) \<in> set (children (r, Dir es))"
    | (sub) e where "e \<in> set es" "(p, d) \<in> set (rglob (r @ [fst e]) (snd e))"
    by (auto simp: rglob_Dir)
  then show ?case
  proof cases
    case kid
    then obtain n where "(n, d) \<in> set es" "p = r @ [n]"
      by (auto simp: children_def)
    then show ?thesis by (blast intro: descendant.child)
  next
    case sub
    obtain n c where e: "e = (n, c)" by (cases e)
    with sub(1) have "c \<in> Basic_BNFs.snds e" by simp
    from Dir.IH [OF sub(1) this, of "r @ [n]"] sub(2) e
    obtain q where "p = (r @ [n]) @ q" "descendant c q d" by auto
    with sub(1) e show ?thesis
      by (intro exI [of _ "n # q"]) (auto intro: descendant.deeper)
  qed
qed

lemma is_bundle_iff:
  "is_bundle (p, d) \<longleftrightarrow> is_dir d \<and> ''metadata.yaml'' \<in> fst ` set (iterdir d)"
  by (simp add: is_bundle_def map_of_eq_None_iff)

lemma find_bundles_iff:
  "(p, d) \<in> set (find_bundles root t) \<longleftrightarrow>
     (\<exists>q. p = root @ q \<and> descendant t q d \<and> is_dir d \<and>
          ''metadata.yaml'' \<in> fst ` set (iterdir d))"
  using descendant_rglob [of t _ d root] rglob_descendant [of p d root t]
  by (auto simp: find_bundles_def is_bundle_iff)






section \<open>The exit status\<close>

lemma validate_bundle_appends:
  "validate_bundle env d es errs = errs @ validate_bundle env d es []"
proof (cases "missing_files es = {}")
  case False
  then show ?thesis by (simp add: validate_bundle_missing)
next
  case True
  show ?thesis
  proof (cases "length (models_names es) = 1")
    case False
    with True show ?thesis by (simp add: validate_bundle_models)
  next
    case m: True
    with True have "files_ok es" by (simp add: files_ok_def)
    then show ?thesis by (simp add: validate_bundle_checks)
  qed
qed

lemma foldl_validate_bundle:
  "foldl (\<lambda>errs bundle. validate_bundle env (fst bundle) (iterdir (snd bundle)) errs) acc bs =
   acc @ concat (map (\<lambda>bundle. validate_bundle env (fst bundle) (iterdir (snd bundle)) []) bs)"
proof (induction bs arbitrary: acc)
  case Nil
  then show ?case by simp
next
  case (Cons b bs)
  show ?case
    by (simp add: Cons.IH validate_bundle_appends [of env "fst b" "iterdir (snd b)" acc])
qed

lemma main_missing_root: "fst (main env root None) = 1"
  by (simp add: main_def)

lemma main_exit:
  "fst (main env root (Some t)) =
   (if \<exists>b \<in> set (find_bundles root t). validate_bundle env (fst b) (iterdir (snd b)) [] \<noteq> []
    then 1 else 0)"
  by (auto simp: main_def Let_def foldl_validate_bundle)

lemma main_no_bundles:
  "find_bundles root t = [] \<Longrightarrow>
   main env root (Some t) = (0, [''WARNING: No workflow bundles found (metadata.yaml missing)''])"
  by (simp add: main_def)

text \<open>
  C7. The process exits with status 1 exactly when the root directory does not exist or at
  least one bundle (a directory beneath the root with an entry named \<^verbatim>\<open>metadata.yaml\<close>)
  produces at least one validation error, and with status 0 otherwise; when the root exists
  and holds no bundle, the warning is the only line printed, no error is listed, and the
  status is 0.
\<close>

theorem exit_status:
  "fst (main env root None) = 1 \<and>
   fst (main env root (Some t)) =
     (if \<exists>q d. descendant t q d \<and> is_dir d \<and> ''metadata.yaml'' \<in> fst ` set (iterdir d) \<and>
                validate_bundle env (root @ q) (iterdir d) [] \<noteq> []
      then 1 else 0) \<and>
   ((\<forall>q d. descendant t q d \<longrightarrow> \<not> (is_dir d \<and> ''metadata.yaml'' \<in> fst ` set (iterdir d))) \<longrightarrow>
      main env root (Some t) =
        (0, [''WARNING: No workflow bundles found (metadata.yaml missing)'']))"
proof -
  have e: "(\<exists>b \<in> set (find_bundles root t). validate_bundle env (fst b) (iterdir (snd b)) [] \<noteq> []) \<longleftrightarrow>
        (\<exists>q d. descendant t q d \<and> is_dir d \<and> ''metadata.yaml'' \<in> fst ` set (iterdir d) \<and>
                validate_bundle env (root @ q) (iterdir d) [] \<noteq> [])"
    (is "?L \<longleftrightarrow> ?R")
  proof
    assume ?L
    then obtain p d where "(p, d) \<in> set (find_bundles root t)"
      "validate_bundle env p (iterdir d) [] \<noteq> []" by auto
    then show ?R by (auto simp: find_bundles_iff)
  next
    assume ?R
    then obtain q d where "(root @ q, d) \<in> set (find_bundles root t)"
      "validate_bundle env (root @ q) (iterdir d) [] \<noteq> []"
      by (auto simp: find_bundles_iff)
    then show ?L by force
  qed
  have n: "find_bundles root t = []"
    if "\<forall>q d. descendant t q d \<longrightarrow> \<not> (is_dir d \<and> ''metadata.yaml'' \<in> fst ` set (iterdir d))"
  proof (rule ccontr)
    assume "find_bundles root t \<noteq> []"
    then obtain p d where "(p, d) \<in> set (find_bundles root t)"
      by (cases "find_bundles root t") auto
    with that show False by (auto simp: find_bundles_iff)
  qed
  show ?thesis
    using main_no_bundles [OF n, of env]
    by (simp only: main_missing_root main_exit e simp_thms) blast
qed

lemma no_descendant_empty: "\<not> descendant (Dir []) q d"
  by (auto elim: descendant.cases)

lemma validate_bundle_ex_tree:
  "validate_bundle ex_env ([''w''] @ [''b'']) (iterdir (Dir [(''metadata.yaml'', File [])])) [] \<noteq> []"
proof -
  have "missing_files [(''metadata.yaml'', File [])] \<noteq> {}"
    by (auto simp: missing_files_def file_names_def REQUIRED_FILES_def)
  then show ?thesis by (simp add: validate_bundle_missing)
qed

lemma missing_keys_ex_good_hashes: "missing_keys REQUIRED_HASH_FIELDS ex_good_hashes = {}"
  by (auto simp: missing_keys_def REQUIRED_HASH_FIELDS_def ex_good_hashes_def)

lemma reaches_hashes_ex_good:
  "reaches_hashes (ex_meta_env (YMap ex_good_hashes)) ex_plain ex_good_hashes"
  by (simp add: reaches_hashes_def files_ok_ex_plain load_metadata_ex_meta missing_keys_ex_meta
      hashes_of_def py_get_ex_meta missing_keys_ex_good_hashes)

lemma validate_bundle_ex_good:
  "validate_bundle (ex_meta_env (YMap ex_good_hashes)) d ex_plain [] = []"
proof -
  have u: "unknown_errors d ex_plain = []"
    by (auto simp: unknown_errors_def unknown_files_def file_names_def ex_plain_def
        REQUIRED_FILES_def models_names_def suffix_def)
  have s: "size_errors (ex_meta_env (YMap ex_good_hashes)) d ex_plain = []"
    by (rule size_errors_small) (simp add: st_size_def ex_plain_def MAX_SIZE_BYTES_def)
  have a: "sha256_file (read_bytes ex_plain ''workflow_api.json'') =
     ''ba7816bf8f01cfea414140de5dae2223b00361a396177a9cb410ff61f20015ad''"
    by (simp add: read_bytes_def ex_plain_def sha256_file_update hexdigest_update_new sha256_abc)
  have b: "sha256_file (read_bytes ex_plain ''workflow_original.json'') =
     ''e3b0c44298fc1c149afbf4c8996fb92427ae41e4649b934ca495991b7852b855''"
    by (simp add: read_bytes_def ex_plain_def sha256_file_update hexdigest_update_new sha256_empty)
  have h: "hash_errors d ex_plain ex_good_hashes = []"
    unfolding hash_errors_def a b by (simp add: py_get_def ex_good_hashes_def)
  show ?thesis
    by (simp add: validate_bundle_checks [OF files_ok_ex_plain] u s
        metadata_errors_reached [OF reaches_hashes_ex_good] h)
qed

lemma find_bundles_ex_good_tree:
  "find_bundles [''w''] ex_good_tree = [([''w'', ''demo''], Dir ex_plain)]"
  by (simp add: ex_good_tree_def find_bundles_Dir find_bundles_File children_def is_bundle_def
      ex_plain_def)

lemma show_nat_1: "show_nat (Suc 0) = ''1''"
  by (subst show_nat.simps) (simp add: digit_char_def)

lemma main_ex_good_tree:
  "main (ex_meta_env (YMap ex_good_hashes)) [''w''] (Some ex_good_tree) =
   (0, [''Validation OK: 1 bundle(s)''])"
  by (simp add: main_def find_bundles_ex_good_tree validate_bundle_ex_good show_nat_1)

theorem exit_status_witness:
  "fst (main ex_env [''w''] None) = 1 \<and>
   main ex_env [''w''] (Some (Dir [])) =
     (0, [''WARNING: No workflow bundles found (metadata.yaml missing)'']) \<and>
   descendant ex_tree [''b''] (Dir [(''metadata.yaml'', File [])]) \<and>
   fst (main ex_env [''w''] (Some ex_tree)) = 1 \<and>
   main (ex_meta_env (YMap ex_good_hashes)) [''w''] (Some ex_good_tree) =
     (0, [''Validation OK: 1 bundle(s)''])"
proof -
  have d: "descendant ex_tree [''b''] (Dir [(''metadata.yaml'', File [])])"
    unfolding ex_tree_def by (rule descendant.child) simp
  have x: "\<exists>q d. descendant ex_tree q d \<and> is_dir d \<and> ''metadata.yaml'' \<in> fst ` set (iterdir d) \<and>
                validate_bundle ex_env ([''w''] @ q) (iterdir d) [] \<noteq> []"
    using d validate_bundle_ex_tree
    by (intro exI [of _ "[''b'']"] exI [of _ "Dir [(''metadata.yaml'', File [])]"]) simp
  have "fst (main ex_env [''w''] None) = 1"
    using exit_status [of ex_env "[''w'']" "Dir []"] by blast
  moreover have "main ex_env [''w''] (Some (Dir [])) =
     (0, [''WARNING: No workflow bundles found (metadata.yaml missing)''])"
    using exit_status [of ex_env "[''w'']" "Dir []"] no_descendant_empty by blast
  moreover have "fst (main ex_env [''w''] (Some ex_tree)) = 1"
    using exit_status [of ex_env "[''w'']" ex_tree] x by presburger
  ultimately show ?thesis
    using d main_ex_good_tree by blast
qed

end
